theory Spec2Isabelle
  imports Main "HOL-Library.Finite_Map" "HOL-Library.Sublist"
begin

section \<open>JavaScript values\<close>

text \<open>
  A string is the list of the bytes of its UTF-8 encoding (\<^typ>\<open>string\<close>); a value that
  may be \<^verbatim>\<open>undefined\<close> or \<^verbatim>\<open>null\<close> is a \<^typ>\<open>string option\<close>. A thrown \<^verbatim>\<open>Error(message)\<close>
  or \<^verbatim>\<open>RangeError(message)\<close> is the left summand of a sum type.
\<close>

datatype js_error = Error string | RangeError string

text \<open>
  \<^verbatim>\<open>new Date(t).toISOString()\<close> returns for a time value \<open>t\<close> within 8.64e15 milliseconds
  of the epoch and throws \<^verbatim>\<open>RangeError: Invalid time value\<close> for every other.
\<close>

definition validDate :: "int \<Rightarrow> bool" where
  "validDate t = (- 8640000000000000 \<le> t \<and> t \<le> 8640000000000000)"

text \<open>Truthiness of a possibly missing string: missing and the empty string are falsy.\<close>

definition truthy :: "string option \<Rightarrow> bool" where
  "truthy v = (case v of None \<Rightarrow> False | Some s \<Rightarrow> s \<noteq> [])"

text \<open>\<^verbatim>\<open>a || b\<close>: the left operand when it is truthy, the right one otherwise.\<close>

definition js_or :: "string option \<Rightarrow> string option \<Rightarrow> string option" where
  "js_or a b = (if truthy a then a else b)"

text \<open>The string held by a value already known to be truthy.\<close>

definition str :: "string option \<Rightarrow> string" where
  "str v = (case v of None \<Rightarrow> [] | Some s \<Rightarrow> s)"

text \<open>\<^verbatim>\<open>s.startsWith(p)\<close>.\<close>

definition startsWith :: "string \<Rightarrow> string \<Rightarrow> bool" where
  "startsWith s p = (take (length p) s = p)"

text \<open>\<^verbatim>\<open>s.split('.')\<close>: never the empty list, so the \<open>[]\<close> case below is never taken.\<close>

fun split_dot :: "string \<Rightarrow> string list" where
  "split_dot [] = [[]]"
| "split_dot (c # cs) =
     (if c = CHR ''.'' then [] # split_dot cs
      else (case split_dot cs of r # rs \<Rightarrow> (c # r) # rs | [] \<Rightarrow> [[c]]))"

section \<open>Token manager (tokenManager.js)\<close>

subsection \<open>Data\<close>

text \<open>
  The claims of a decoded JWT payload that the manager reads. A claim that is absent is
  \<open>None\<close>; \<^verbatim>\<open>decoded.exp * 1000\<close> on an absent \<^verbatim>\<open>exp\<close> is NaN, and every comparison with
  NaN is false.
\<close>

record claims =
  oid :: "string option"
  sub :: "string option"
  exp :: "int option"

text \<open>The body of the token endpoint's answer (\<^verbatim>\<open>response.data\<close>).\<close>

record tokenResponse =
  access_token :: string
  refresh_token :: "string option"
  expires_in :: int

record tokenPair =
  accessToken :: string
  refreshToken :: string

text \<open>What \<^verbatim>\<open>refreshAccessToken\<close> returns, and what the cache holds for a user.\<close>

record refreshedTokens = tokenPair +
  expiresIn :: int

record cachedTokens = tokenPair +
  expiresAt :: int

text \<open>
  The surroundings of one call:
  \<^item> \<open>parseJson p\<close> is \<^verbatim>\<open>JSON.parse(Buffer.from(p, 'base64').toString())\<close> followed by the
    reads of \<^verbatim>\<open>oid\<close>, \<^verbatim>\<open>sub\<close> and \<^verbatim>\<open>exp\<close>; \<open>None\<close> when that throws;
  \<^item> \<open>now\<close> is \<^verbatim>\<open>Date.now()\<close> in milliseconds (one instant for the whole call);
  \<^item> \<open>tokenEndpoint r\<close> is the answer of the \<^verbatim>\<open>axios.post\<close> that exchanges refresh token
    \<open>r\<close>; \<open>None\<close> when the request is rejected;
  \<^item> \<open>fileWritable\<close> tells whether \<^verbatim>\<open>fs.writeFileSync\<close> on the cache file completes.
\<close>

record env =
  parseJson :: "string \<Rightarrow> claims option"
  now :: int
  tokenEndpoint :: "string \<Rightarrow> tokenResponse option"
  fileWritable :: bool

text \<open>
  The module state: the in-memory \<^verbatim>\<open>userTokenCache\<close> (a \<^verbatim>\<open>Map\<close>: finitely many keys,
  each with one record), the object held by \<^verbatim>\<open>tokenCache.json\<close>, and the refresh tokens
  posted to the token endpoint so far (oldest first).
\<close>

record tokenStore =
  userTokenCache :: "(string, cachedTokens) fmap"
  tokenCacheFile :: "(string, cachedTokens) fmap"
  tokenRequests :: "string list"

text \<open>
  The parts of the request that \<^verbatim>\<open>getDelegatedToken\<close> reads:
  \<^verbatim>\<open>req.headers.authorization\<close>, \<^verbatim>\<open>req.headers['x-refresh-token']\<close>,
  \<^verbatim>\<open>req.body?.refreshToken\<close> and \<^verbatim>\<open>req.body?.accessToken\<close>.
\<close>

record request =
  authorization :: "string option"
  x_refresh_token :: "string option"
  body_refreshToken :: "string option"
  body_accessToken :: "string option"

subsection \<open>Operations\<close>

text \<open>
  \<^verbatim>\<open>saveTokenCache\<close> copies the map into a plain object, turning each \<^verbatim>\<open>expiresAt\<close> into
  an ISO string, and writes the object to the file, all inside one \<^verbatim>\<open>try\<close>. A record
  whose \<^verbatim>\<open>expiresAt\<close> is no valid date makes \<^verbatim>\<open>toISOString\<close> throw, and a failing
  \<^verbatim>\<open>writeFileSync\<close> throws as well: the \<^verbatim>\<open>catch\<close> logs, and the file is as it was. The
  assignment \<^verbatim>\<open>cacheObj[userId] = ...\<close> for the key \<^verbatim>\<open>__proto__\<close> sets the prototype of
  the object and creates no property, so that key never reaches the file.
\<close>

definition saveTokenCache :: "env \<Rightarrow> tokenStore \<Rightarrow> tokenStore" where
  "saveTokenCache e s =
     (if fmpred (\<lambda>userId data. validDate (expiresAt data)) (userTokenCache s) \<and> fileWritable e
      then s\<lparr>tokenCacheFile := fmdrop ''__proto__'' (userTokenCache s)\<rparr>
      else s)"

text \<open>The common \<^verbatim>\<open>try\<close> body of \<^verbatim>\<open>getUserIdFromToken\<close> and \<^verbatim>\<open>isTokenExpired\<close>.\<close>

definition decodeToken :: "env \<Rightarrow> string \<Rightarrow> claims option" where
  "decodeToken e token =
     (case split_dot token of
        _ # payload # _ \<Rightarrow> parseJson e payload
      | _ \<Rightarrow> None)"

definition getUserIdFromToken :: "env \<Rightarrow> string \<Rightarrow> string" where
  "getUserIdFromToken e token =
     (case decodeToken e token of
        None \<Rightarrow> ''default-user''
      | Some decoded \<Rightarrow>
          str (js_or (js_or (oid decoded) (sub decoded)) (Some ''default-user'')))"

definition refreshAccessToken ::
  "env \<Rightarrow> string \<Rightarrow> tokenStore \<Rightarrow> (js_error + refreshedTokens) \<times> tokenStore" where
  "refreshAccessToken e refreshTok s =
     (let s' = s\<lparr>tokenRequests := tokenRequests s @ [refreshTok]\<rparr>
      in case tokenEndpoint e refreshTok of
           None \<Rightarrow> (Inl (Error ''Failed to refresh access token''), s')
         | Some data \<Rightarrow>
             (Inr \<lparr>accessToken = access_token data,
                   refreshToken = str (js_or (refresh_token data) (Some refreshTok)),
                   expiresIn = expires_in data\<rparr>, s'))"

text \<open>
  When the token is expired, \<^verbatim>\<open>isTokenExpired\<close> logs
  \<^verbatim>\<open>new Date(exp).toISOString()\<close> and \<^verbatim>\<open>new Date(now).toISOString()\<close> before it returns,
  inside its \<^verbatim>\<open>try\<close>: when one of the two is no valid date the \<^verbatim>\<open>catch\<close> returns
  \<^verbatim>\<open>false\<close>.
\<close>

definition isTokenExpired :: "env \<Rightarrow> string \<Rightarrow> bool" where
  "isTokenExpired e token =
     (case decodeToken e token of
        None \<Rightarrow> False
      | Some decoded \<Rightarrow>
          (case exp decoded of
             None \<Rightarrow> False
           | Some x \<Rightarrow>
               let expMs = x * 1000;
                   isExpired = (now e \<ge> expMs)
               in if isExpired \<and> \<not> (validDate expMs \<and> validDate (now e)) then False
                  else isExpired))"

text \<open>Lines 329-348: the access token and the refresh token taken from the request.\<close>

definition suppliedAccessToken :: "request \<Rightarrow> string option" where
  "suppliedAccessToken req =
     (let fromHeader =
            (case authorization req of
               None \<Rightarrow> None
             | Some authHeader \<Rightarrow>
                 if authHeader = [] then None
                 else if startsWith authHeader ''Bearer '' then Some (drop 7 authHeader)
                 else Some authHeader)
      in if truthy fromHeader then fromHeader else body_accessToken req)"

definition suppliedRefreshToken :: "request \<Rightarrow> string option" where
  "suppliedRefreshToken req = js_or (x_refresh_token req) (body_refreshToken req)"

text \<open>
  The record written after a successful refresh
  (\<^verbatim>\<open>Date.now() + (refreshedTokens.expiresIn - 60) * 1000\<close>), and the two statements
  \<^verbatim>\<open>userTokenCache.set(userId, rec); saveTokenCache(userTokenCache)\<close>, respectively
  \<^verbatim>\<open>userTokenCache.delete(userId); saveTokenCache(userTokenCache)\<close>.
\<close>

definition refreshedRecord :: "env \<Rightarrow> refreshedTokens \<Rightarrow> cachedTokens" where
  "refreshedRecord e r =
     \<lparr>accessToken = accessToken r, refreshToken = refreshToken r,
      expiresAt = now e + (expiresIn r - 60) * 1000\<rparr>"

definition cacheSet :: "env \<Rightarrow> string \<Rightarrow> cachedTokens \<Rightarrow> tokenStore \<Rightarrow> tokenStore" where
  "cacheSet e userId rec s =
     saveTokenCache e (s\<lparr>userTokenCache := fmupd userId rec (userTokenCache s)\<rparr>)"

definition cacheDelete :: "env \<Rightarrow> string \<Rightarrow> tokenStore \<Rightarrow> tokenStore" where
  "cacheDelete e userId s =
     saveTokenCache e (s\<lparr>userTokenCache := fmdrop userId (userTokenCache s)\<rparr>)"

text \<open>
  Lines 424-459, reached when no cached record decided the call: cache a supplied pair
  whose access token is not expired, otherwise hand the supplied access token back.
\<close>

definition cacheNewToken ::
  "env \<Rightarrow> string \<Rightarrow> string \<Rightarrow> string option \<Rightarrow> bool \<Rightarrow> tokenStore
     \<Rightarrow> (js_error + string option) \<times> tokenStore" where
  "cacheNewToken e userId accessTok refreshTok providedTokenExpired s =
     (if truthy refreshTok then
        (if \<not> providedTokenExpired then
           (Inr (Some accessTok),
            cacheSet e userId
              \<lparr>accessToken = accessTok, refreshToken = str refreshTok,
               expiresAt = now e + 55 * 60 * 1000\<rparr> s)
         else
           (case refreshAccessToken e (str refreshTok) s of
              (Inl err, s1) \<Rightarrow> (Inl err, s1)
            | (Inr refreshed, s1) \<Rightarrow>
                (Inr (Some (accessToken refreshed)),
                 cacheSet e userId (refreshedRecord e refreshed) s1)))
      else (Inr (Some accessTok), s))"

text \<open>
  In \<^verbatim>\<open>getDelegatedToken\<close> the log line that follows the cache lookup (line 388) prints
  \<^verbatim>\<open>new Date(cachedData.expiresAt).toISOString()\<close> outside every \<^verbatim>\<open>try\<close>: a cached record
  whose \<^verbatim>\<open>expiresAt\<close> is no valid date makes the call throw a \<^verbatim>\<open>RangeError\<close>, the store
  untouched.
\<close>

definition getDelegatedToken ::
  "env \<Rightarrow> request \<Rightarrow> tokenStore \<Rightarrow> (js_error + string option) \<times> tokenStore" where
  "getDelegatedToken e req s =
     (let refreshTok = suppliedRefreshToken req in
      case suppliedAccessToken req of
        None \<Rightarrow> (Inr None, s)
      | Some accessTok \<Rightarrow>
          if accessTok = [] then (Inr None, s)
          else
            let userId = getUserIdFromToken e accessTok;
                providedTokenExpired = isTokenExpired e accessTok
            in if providedTokenExpired \<and> truthy refreshTok then
                 (case refreshAccessToken e (str refreshTok) s of
                    (Inl err, s1) \<Rightarrow> (Inl err, s1)
                  | (Inr refreshed, s1) \<Rightarrow>
                      (Inr (Some (accessToken refreshed)),
                       cacheSet e userId (refreshedRecord e refreshed) s1))
               else
                 (case fmlookup (userTokenCache s) userId of
                    None \<Rightarrow>
                      cacheNewToken e userId accessTok refreshTok providedTokenExpired s
                  | Some cachedData \<Rightarrow>
                      if \<not> validDate (expiresAt cachedData) then
                        (Inl (RangeError ''Invalid time value''), s)
                      else if now e < expiresAt cachedData then
                        (Inr (Some (accessToken cachedData)), s)
                      else
                        let tokenToUse = js_or refreshTok (Some (refreshToken cachedData))
                        in if truthy tokenToUse then
                             (case refreshAccessToken e (str tokenToUse) s of
                                (Inl err, s1) \<Rightarrow> (Inl err, cacheDelete e userId s1)
                              | (Inr refreshed, s1) \<Rightarrow>
                                  (Inr (Some (accessToken refreshed)),
                                   cacheSet e userId (refreshedRecord e refreshed) s1))
                           else
                             cacheNewToken e userId accessTok refreshTok
                               providedTokenExpired s))"

definition clearUserToken :: "env \<Rightarrow> string \<Rightarrow> tokenStore \<Rightarrow> tokenStore" where
  "clearUserToken e token s = cacheDelete e (getUserIdFromToken e token) s"

section \<open>Identifier resolver (tools.idResolver.js)\<close>

subsection \<open>Strings and the canonical-ID pattern\<close>

text \<open>\<^verbatim>\<open>s.includes(t)\<close>: \<open>t\<close> occurs in \<open>s\<close> as a contiguous substring.\<close>

fun includes_str :: "string \<Rightarrow> string \<Rightarrow> bool" where
  "includes_str [] t = (t = [])"
| "includes_str (c # cs) t = (startsWith (c # cs) t \<or> includes_str cs t)"

text \<open>
  The pattern
  \<^verbatim>\<open>/^[0-9a-f]{8}-[0-9a-f]{4}-[0-9a-f]{4}-[0-9a-f]{4}-[0-9a-f]{12}$/i\<close>,
  read from left to right: each piece consumes its part of the string and hands the rest
  on; the match succeeds when nothing is left.
\<close>

definition isHexDigit :: "char \<Rightarrow> bool" where
  "isHexDigit c = (c \<in> set ''0123456789abcdefABCDEF'')"

fun hexDigits :: "nat \<Rightarrow> string \<Rightarrow> string option" where
  "hexDigits 0 s = Some s"
| "hexDigits (Suc n) [] = None"
| "hexDigits (Suc n) (c # cs) = (if isHexDigit c then hexDigits n cs else None)"

fun dash :: "string \<Rightarrow> string option" where
  "dash [] = None"
| "dash (c # cs) = (if c = CHR ''-'' then Some cs else None)"

definition matchesGuid :: "string \<Rightarrow> bool" where
  "matchesGuid s =
     (Option.bind (Option.bind (Option.bind (Option.bind (Option.bind (Option.bind
        (Option.bind (Option.bind (hexDigits 8 s) dash) (hexDigits 4)) dash)
        (hexDigits 4)) dash) (hexDigits 4)) dash) (hexDigits 12) = Some [])"

subsection \<open>The directory\<close>

text \<open>
  An object of a Graph answer, with the properties the resolver reads. \<open>organizerUserId\<close>
  is \<^verbatim>\<open>m.participants?.organizer?.identity?.user?.id\<close>; \<open>startDateTime\<close> is the instant,
  in milliseconds, that \<^verbatim>\<open>new Date(m.startDateTime)\<close> denotes.
\<close>

record entity =
  ent_id :: "string option"
  displayName :: "string option"
  subject :: "string option"
  organizerUserId :: "string option"
  startDateTime :: "int option"

text \<open>The parsed body of an answer: its \<^verbatim>\<open>value\<close> array and its own \<^verbatim>\<open>id\<close>, when present.\<close>

record response =
  res_value :: "entity list option"
  res_id :: "string option"

text \<open>
  The requests the resolver sends through \<^verbatim>\<open>client.get\<close>:
  \<^verbatim>\<open>/me/joinedTeams\<close>, \<^verbatim>\<open>/teams\<close>, the two \<^verbatim>\<open>/users?$filter=\<close> queries (on \<^verbatim>\<open>mail\<close> and on
  \<^verbatim>\<open>displayName\<close>), \<^verbatim>\<open>/users/{key}\<close> and \<^verbatim>\<open>/me/onlineMeetings\<close>.
\<close>

datatype endpoint =
  MeJoinedTeams
| AllTeams
| UsersByMail string
| UsersByDisplayName string
| UserByKey string
| MeOnlineMeetings

text \<open>
  The remote directory answers a request with a body or rejects it with an error; the
  resolver's functions take the list of requests sent so far and return it extended.
\<close>

type_synonym graph = "endpoint \<Rightarrow> js_error + response"

fun message :: "js_error \<Rightarrow> string" where
  "message (Error m) = m"
| "message (RangeError m) = m"

definition clientGet ::
  "graph \<Rightarrow> endpoint \<Rightarrow> endpoint list \<Rightarrow> (js_error + response) \<times> endpoint list" where
  "clientGet g ep log = (g ep, log @ [ep])"

text \<open>The guard of the \<^verbatim>\<open>GraphClient\<close> constructor.\<close>

definition clientInitError :: js_error where
  "clientInitError = Error ''accessToken is required to initialize GraphClient''"

subsection \<open>Lookups by name\<close>

text \<open>
  The functions that compare names take \<open>toLowerCase\<close>, the platform's
  \<^verbatim>\<open>String.prototype.toLowerCase\<close>, as their first argument.
\<close>

definition findByDisplayName ::
  "(string \<Rightarrow> string) \<Rightarrow> string \<Rightarrow> entity list option \<Rightarrow> entity option" where
  "findByDisplayName toLowerCase name v =
     (case v of
        None \<Rightarrow> None
      | Some ts \<Rightarrow>
          List.find (\<lambda>t. map_option toLowerCase (displayName t) = Some (toLowerCase name)) ts)"

definition findTeamIdByName ::
  "(string \<Rightarrow> string) \<Rightarrow> graph \<Rightarrow> string \<Rightarrow> string \<Rightarrow> endpoint list
     \<Rightarrow> (js_error + string option) \<times> endpoint list" where
  "findTeamIdByName toLowerCase g accessTok teamName log =
     (if accessTok = [] then (Inl clientInitError, log)
      else case clientGet g MeJoinedTeams log of
          (Inl err, log1) \<Rightarrow> (Inl (Error (''Failed to find team: '' @ message err)), log1)
        | (Inr teams, log1) \<Rightarrow>
            (case findByDisplayName toLowerCase teamName (res_value teams) of
               Some team \<Rightarrow> (Inr (ent_id team), log1)
             | None \<Rightarrow>
                 (case clientGet g AllTeams log1 of
                    (Inl err, log2) \<Rightarrow> (Inr None, log2)
                  | (Inr allTeams, log2) \<Rightarrow>
                      (case findByDisplayName toLowerCase teamName (res_value allTeams) of
                         Some team \<Rightarrow> (Inr (ent_id team), log2)
                       | None \<Rightarrow> (Inr None, log2)))))"

text \<open>Lines 98-112 of \<^verbatim>\<open>findUserId\<close>: the display-name query, then the direct address.\<close>

definition findUserByName ::
  "graph \<Rightarrow> string \<Rightarrow> endpoint list \<Rightarrow> (js_error + string option) \<times> endpoint list" where
  "findUserByName g emailOrName log =
     (case clientGet g (UsersByDisplayName emailOrName) log of
        (Inl err, log1) \<Rightarrow> (Inl (Error (''Failed to find user: '' @ message err)), log1)
      | (Inr users, log1) \<Rightarrow>
          (case res_value users of
             Some (u # _) \<Rightarrow> (Inr (ent_id u), log1)
           | _ \<Rightarrow>
               (case clientGet g (UserByKey emailOrName) log1 of
                  (Inl err, log2) \<Rightarrow> (Inr None, log2)
                | (Inr user, log2) \<Rightarrow> (Inr (res_id user), log2))))"

definition findUserId ::
  "graph \<Rightarrow> string \<Rightarrow> string \<Rightarrow> endpoint list \<Rightarrow> (js_error + string option) \<times> endpoint list" where
  "findUserId g accessTok emailOrName log =
     (if accessTok = [] then (Inl clientInitError, log)
      else if CHR ''@'' \<in> set emailOrName then
        (case clientGet g (UsersByMail emailOrName) log of
           (Inl err, log1) \<Rightarrow> (Inl (Error (''Failed to find user: '' @ message err)), log1)
         | (Inr users, log1) \<Rightarrow>
             (case res_value users of
                Some (u # _) \<Rightarrow> (Inr (ent_id u), log1)
              | _ \<Rightarrow> findUserByName g emailOrName log1))
      else findUserByName g emailOrName log)"

subsection \<open>Meetings\<close>

text \<open>
  The criteria of \<^verbatim>\<open>findMeetingId\<close>. \<open>afterDate\<close> holds what \<^verbatim>\<open>new Date(afterDate)\<close> denotes
  when the criterion is truthy: an instant in milliseconds, or an invalid date, which
  compares false with every instant.
\<close>

datatype jsdate = InvalidDate | Instant int

record criteria =
  title :: "string option"
  organizerEmail :: "string option"
  afterDate :: "jsdate option"

text \<open>The key of the comparator: the start instant, or the epoch when there is none.\<close>

definition startTime :: "entity \<Rightarrow> int" where
  "startTime m = (case startDateTime m of None \<Rightarrow> 0 | Some t \<Rightarrow> t)"

definition titleMatches :: "(string \<Rightarrow> string) \<Rightarrow> string \<Rightarrow> entity \<Rightarrow> bool" where
  "titleMatches toLowerCase t m =
     (case subject m of None \<Rightarrow> False | Some sj \<Rightarrow> includes_str (toLowerCase sj) (toLowerCase t))"

definition startsAtOrAfter :: "jsdate \<Rightarrow> entity \<Rightarrow> bool" where
  "startsAtOrAfter after m =
     (case (startDateTime m, after) of
        (Some t, Instant a) \<Rightarrow> t \<ge> a
      | _ \<Rightarrow> False)"

text \<open>
  \<^verbatim>\<open>filtered.sort((a, b) => bTime - aTime)\<close>: the sort is stable, so it is the insertion
  sort on the negated start instant.
\<close>

definition sortByStartDesc :: "entity list \<Rightarrow> entity list" where
  "sortByStartDesc ms = sort_key (\<lambda>m. - startTime m) ms"

text \<open>Lines 148-163: the start-time filter, the sort and the choice of the first.\<close>

definition pickMostRecent :: "jsdate option \<Rightarrow> entity list \<Rightarrow> string option" where
  "pickMostRecent after filtered =
     (let filtered' = (case after of
                         None \<Rightarrow> filtered
                       | Some d \<Rightarrow> filter (startsAtOrAfter d) filtered)
      in case sortByStartDesc filtered' of
           [] \<Rightarrow> None
         | m # _ \<Rightarrow> ent_id m)"

definition findMeetingId ::
  "(string \<Rightarrow> string) \<Rightarrow> graph \<Rightarrow> string \<Rightarrow> criteria \<Rightarrow> endpoint list
     \<Rightarrow> (js_error + string option) \<times> endpoint list" where
  "findMeetingId toLowerCase g accessTok crit log =
     (if accessTok = [] then (Inl clientInitError, log)
      else case clientGet g MeOnlineMeetings log of
          (Inl err, log1) \<Rightarrow> (Inl (Error (''Failed to find meeting: '' @ message err)), log1)
        | (Inr meetings, log1) \<Rightarrow>
            (case res_value meetings of
               None \<Rightarrow> (Inr None, log1)
             | Some [] \<Rightarrow> (Inr None, log1)
             | Some ms \<Rightarrow>
                 let filtered = (if truthy (title crit)
                                 then filter (titleMatches toLowerCase (str (title crit))) ms
                                 else ms)
                 in if truthy (organizerEmail crit) then
                      (case findUserId g accessTok (str (organizerEmail crit)) log1 of
                         (Inl err, log2) \<Rightarrow>
                           (Inl (Error (''Failed to find meeting: '' @ message err)), log2)
                       | (Inr organizerId, log2) \<Rightarrow>
                           (Inr (pickMostRecent (afterDate crit)
                                  (if truthy organizerId
                                   then filter (\<lambda>m. organizerUserId m = organizerId) filtered
                                   else filtered)), log2))
                    else (Inr (pickMostRecent (afterDate crit) filtered), log1)))"

subsection \<open>Resolution of an identifier that may already be canonical\<close>

definition resolveTeamId ::
  "(string \<Rightarrow> string) \<Rightarrow> graph \<Rightarrow> string \<Rightarrow> string option \<Rightarrow> endpoint list
     \<Rightarrow> (js_error + string option) \<times> endpoint list" where
  "resolveTeamId toLowerCase g accessTok teamIdOrName log =
     (if \<not> truthy teamIdOrName then (Inr None, log)
      else if matchesGuid (str teamIdOrName) then (Inr teamIdOrName, log)
      else findTeamIdByName toLowerCase g accessTok (str teamIdOrName) log)"

definition resolveUserId ::
  "graph \<Rightarrow> string \<Rightarrow> string option \<Rightarrow> endpoint list
     \<Rightarrow> (js_error + string option) \<times> endpoint list" where
  "resolveUserId g accessTok userIdOrEmailOrName log =
     (if \<not> truthy userIdOrEmailOrName then (Inr None, log)
      else if matchesGuid (str userIdOrEmailOrName) then (Inr userIdOrEmailOrName, log)
      else findUserId g accessTok (str userIdOrEmailOrName) log)"

section \<open>Properties to be compared with the code\<close>

text \<open>Every record of the in-memory cache carries a refresh token.\<close>

definition refreshTokensPresent :: "tokenStore \<Rightarrow> bool" where
  "refreshTokensPresent s =
     (\<forall>u c. fmlookup (userTokenCache s) u = Some c \<longrightarrow> refreshToken c \<noteq> [])"

text \<open>
  The most recent meeting of a list: the first one that no meeting of the list starts
  after (a meeting without a start instant counts as starting at the epoch).
\<close>

definition mostRecent :: "entity list \<Rightarrow> entity option" where
  "mostRecent ms = List.find (\<lambda>m. \<forall>m' \<in> set ms. startTime m' \<le> startTime m) ms"

text \<open>
  A title is a case-insensitive substring of a subject: with the case folded away on both
  sides, the title is a contiguous part of the subject.
\<close>

definition containsIgnoringCase :: "(string \<Rightarrow> string) \<Rightarrow> string \<Rightarrow> string \<Rightarrow> bool" where
  "containsIgnoringCase lower sj t = sublist (lower t) (lower sj)"

text \<open>
  A meeting survives the criteria, as the claim words them: a title, when one is given, is
  a case-insensitive substring of the meeting's subject; the organizer, when one was given
  and resolved to \<open>organizerId\<close>, is the meeting's organizer; the meeting has a start
  instant at or after the bound, when a bound is given. A criterion that is absent or
  empty is not applied.
\<close>

definition meetsCriteria ::
  "(string \<Rightarrow> string) \<Rightarrow> criteria \<Rightarrow> string option \<Rightarrow> entity \<Rightarrow> bool" where
  "meetsCriteria lower crit organizerId m =
     ((case title crit of
         None \<Rightarrow> True
       | Some t \<Rightarrow>
           t = [] \<or> (case subject m of None \<Rightarrow> False | Some sj \<Rightarrow> containsIgnoringCase lower sj t)) \<and>
      (case organizerId of
         None \<Rightarrow> True
       | Some org \<Rightarrow> org = [] \<or> organizerUserId m = Some org) \<and>
      (case afterDate crit of
         None \<Rightarrow> True
       | Some InvalidDate \<Rightarrow> False
       | Some (Instant bound) \<Rightarrow>
           (case startDateTime m of None \<Rightarrow> False | Some t \<Rightarrow> bound \<le> t)))"

section \<open>Worked inputs\<close>

text \<open>
  A decoder that knows two payloads of user \<open>alice\<close>: \<open>live\<close> expires at second 2000,
  \<open>dead\<close> at second 500; the clock stands at millisecond 1000000. The token endpoint
  accepts \<open>R0\<close> (one hour, no new refresh token) and \<open>R1\<close> (sixty seconds, rotated to
  \<open>R0\<close>) and rejects every other refresh token.
\<close>

definition demo_parseJson :: "string \<Rightarrow> claims option" where
  "demo_parseJson p =
     (if p = ''live'' then Some \<lparr>oid = Some ''alice'', sub = None, exp = Some 2000\<rparr>
      else if p = ''dead'' then Some \<lparr>oid = Some ''alice'', sub = None, exp = Some 500\<rparr>
      else None)"

definition demo_tokenEndpoint :: "string \<Rightarrow> tokenResponse option" where
  "demo_tokenEndpoint r =
     (if r = ''R0'' then
        Some \<lparr>access_token = ''h.new.s'', refresh_token = None, expires_in = 3600\<rparr>
      else if r = ''R1'' then
        Some \<lparr>access_token = ''h.brief.s'', refresh_token = Some ''R0'', expires_in = 60\<rparr>
      else None)"

definition demo_env :: env where
  "demo_env = \<lparr>parseJson = demo_parseJson, now = 1000000,
               tokenEndpoint = demo_tokenEndpoint, fileWritable = True\<rparr>"

text \<open>The same surroundings with an endpoint that only grants one-hour lifetimes.\<close>

definition demo_hourEndpoint :: "string \<Rightarrow> tokenResponse option" where
  "demo_hourEndpoint r =
     (if r = ''R0'' then
        Some \<lparr>access_token = ''h.new.s'', refresh_token = None, expires_in = 3600\<rparr>
      else None)"

definition demo_hourEnv :: env where
  "demo_hourEnv = \<lparr>parseJson = demo_parseJson, now = 1000000,
                   tokenEndpoint = demo_hourEndpoint, fileWritable = True\<rparr>"

definition demo_empty :: tokenStore where
  "demo_empty = \<lparr>userTokenCache = fmempty, tokenCacheFile = fmempty, tokenRequests = []\<rparr>"

text \<open>A store whose record for \<open>alice\<close> went stale long ago and holds refresh token \<open>r\<close>.\<close>

definition demo_stale :: "string \<Rightarrow> tokenStore" where
  "demo_stale r =
     \<lparr>userTokenCache =
        fmupd ''alice'' \<lparr>accessToken = ''h.old.s'', refreshToken = r, expiresAt = 0\<rparr> fmempty,
      tokenCacheFile =
        fmupd ''alice'' \<lparr>accessToken = ''h.old.s'', refreshToken = r, expiresAt = 0\<rparr> fmempty,
      tokenRequests = []\<rparr>"

text \<open>A request with \<^verbatim>\<open>Authorization: Bearer t\<close> and, possibly, an \<^verbatim>\<open>X-Refresh-Token\<close>.\<close>

definition bearer :: "string \<Rightarrow> string option \<Rightarrow> request" where
  "bearer t r = \<lparr>authorization = Some (''Bearer '' @ t), x_refresh_token = r,
                 body_refreshToken = None, body_accessToken = None\<rparr>"

text \<open>
  The worked inputs of the resolver are ASCII strings, on which \<^verbatim>\<open>toLowerCase\<close> turns the
  letters \<open>A\<close> to \<open>Z\<close> into \<open>a\<close> to \<open>z\<close> and keeps every other character.
\<close>

definition asciiLowerChar :: "char \<Rightarrow> char" where
  "asciiLowerChar c =
     (let n = (of_char c :: nat) in if 65 \<le> n \<and> n \<le> 90 then char_of (n + 32) else c)"

definition asciiLower :: "string \<Rightarrow> string" where
  "asciiLower s = map asciiLowerChar s"

definition demo_meeting :: "string \<Rightarrow> string \<Rightarrow> string \<Rightarrow> int \<Rightarrow> entity" where
  "demo_meeting i sj org t =
     \<lparr>ent_id = Some i, displayName = None, subject = Some sj, organizerUserId = Some org,
      startDateTime = Some t\<rparr>"

definition demo_meetings :: "entity list" where
  "demo_meetings = [demo_meeting ''m1'' ''Daily Sync'' ''u1'' 1000,
                    demo_meeting ''m2'' ''Weekly Sync'' ''u2'' 2000,
                    demo_meeting ''m3'' ''Standup'' ''u1'' 3000]"

text \<open>
  A directory that lists the three meetings, knows nobody called \<open>nobody\<close> and rejects
  every other request.
\<close>

definition demo_graph :: graph where
  "demo_graph ep =
     (if ep = MeOnlineMeetings then Inr \<lparr>res_value = Some demo_meetings, res_id = None\<rparr>
      else if ep = UsersByDisplayName ''nobody'' then Inr \<lparr>res_value = Some [], res_id = None\<rparr>
      else Inl (Error ''Request failed with status code 404''))"

definition syncOnly :: criteria where
  "syncOnly = \<lparr>title = Some ''Sync'', organizerEmail = None, afterDate = None\<rparr>"

definition noCriteria :: criteria where
  "noCriteria = \<lparr>title = None, organizerEmail = None, afterDate = None\<rparr>"

text \<open>
  A fuller calendar, in which each criterion excludes a meeting that the other two admit,
  and a directory that resolves \<open>ann@example.com\<close> to the user \<open>u2\<close>.
\<close>

definition demo_calendar :: "entity list" where
  "demo_calendar = [demo_meeting ''c1'' ''Daily Sync'' ''u1'' 1000,
                    demo_meeting ''c2'' ''Weekly Sync'' ''u2'' 2000,
                    demo_meeting ''c3'' ''Standup'' ''u2'' 3000,
                    demo_meeting ''c4'' ''weekly SYNC prep'' ''u2'' 1200,
                    demo_meeting ''c5'' ''Sync review'' ''u1'' 2500,
                    demo_meeting ''c6'' ''BUDGET sync'' ''u2'' 1800]"

definition demo_calendarGraph :: graph where
  "demo_calendarGraph ep =
     (if ep = MeOnlineMeetings then Inr \<lparr>res_value = Some demo_calendar, res_id = None\<rparr>
      else if ep = UsersByMail ''ann@example.com'' then
        Inr \<lparr>res_value = Some [\<lparr>ent_id = Some ''u2'', displayName = Some ''Ann'',
                                 subject = None, organizerUserId = None,
                                 startDateTime = None\<rparr>],
             res_id = None\<rparr>
      else Inl (Error ''Request failed with status code 404''))"

definition allThree :: criteria where
  "allThree = \<lparr>title = Some ''sYnC'', organizerEmail = Some ''ann@example.com'',
               afterDate = Some (Instant 1500)\<rparr>"

section \<open>Auxiliary facts\<close>

lemma fmpred_fmupd_iff:
  "fmpred P (fmupd k v m) \<longleftrightarrow> P k v \<and> fmpred P (fmdrop k m)"
  by (auto simp: fmpred_iff split: if_splits)

lemmas token_eval =
  demo_env_def demo_hourEnv_def demo_parseJson_def demo_tokenEndpoint_def demo_hourEndpoint_def
  demo_empty_def demo_stale_def bearer_def
  getDelegatedToken_def suppliedAccessToken_def suppliedRefreshToken_def js_or_def truthy_def
  str_def startsWith_def decodeToken_def getUserIdFromToken_def isTokenExpired_def
  cacheNewToken_def refreshAccessToken_def refreshedRecord_def cacheSet_def cacheDelete_def
  saveTokenCache_def clearUserToken_def validDate_def Let_def fmpred_fmupd_iff fmdrop_fmupd

lemma userTokenCache_cacheSet [simp]:
  "userTokenCache (cacheSet e u r s) = fmupd u r (userTokenCache s)"
  by (simp add: cacheSet_def saveTokenCache_def)

lemma tokenCacheFile_cacheSet [simp]:
  "tokenCacheFile (cacheSet e u r s) =
     (if fmpred (\<lambda>userId data. validDate (expiresAt data)) (fmupd u r (userTokenCache s))
         \<and> fileWritable e
      then fmdrop ''__proto__'' (fmupd u r (userTokenCache s)) else tokenCacheFile s)"
  by (simp add: cacheSet_def saveTokenCache_def)

lemma tokenRequests_cacheSet [simp]:
  "tokenRequests (cacheSet e u r s) = tokenRequests s"
  by (simp add: cacheSet_def saveTokenCache_def)

lemma userTokenCache_cacheDelete [simp]:
  "userTokenCache (cacheDelete e u s) = fmdrop u (userTokenCache s)"
  by (simp add: cacheDelete_def saveTokenCache_def)

lemma tokenCacheFile_cacheDelete [simp]:
  "tokenCacheFile (cacheDelete e u s) =
     (if fmpred (\<lambda>userId data. validDate (expiresAt data)) (fmdrop u (userTokenCache s))
         \<and> fileWritable e
      then fmdrop ''__proto__'' (fmdrop u (userTokenCache s)) else tokenCacheFile s)"
  by (simp add: cacheDelete_def saveTokenCache_def)

lemma tokenRequests_cacheDelete [simp]:
  "tokenRequests (cacheDelete e u s) = tokenRequests s"
  by (simp add: cacheDelete_def saveTokenCache_def)

lemma truthy_Some_str: "truthy v \<Longrightarrow> Some (str v) = v"
  by (cases v) (simp_all add: truthy_def str_def)

lemma truthy_str_nonempty: "truthy v \<Longrightarrow> str v \<noteq> []"
  by (cases v) (simp_all add: truthy_def str_def)

lemma str_js_or_nonempty: "r \<noteq> [] \<Longrightarrow> str (js_or v (Some r)) \<noteq> []"
  by (cases v) (simp_all add: js_or_def truthy_def str_def)


text \<open>Two surroundings with the same clock and the same decoder read a token alike.\<close>

lemma same_decoder:
  assumes "now e2 = now e" "parseJson e2 = parseJson e"
  shows "getUserIdFromToken e2 a = getUserIdFromToken e a"
    and "isTokenExpired e2 a = isTokenExpired e a"
proof -
  have "decodeToken e2 a = decodeToken e a"
    unfolding decodeToken_def assms(2) ..
  then show "getUserIdFromToken e2 a = getUserIdFromToken e a"
    and "isTokenExpired e2 a = isTokenExpired e a"
    unfolding getUserIdFromToken_def isTokenExpired_def assms(1) by simp_all
qed

text \<open>The call on the immediate-refresh path (lines 363-382).\<close>

lemma getDelegatedToken_immediate:
  assumes "suppliedAccessToken req = Some a" "a \<noteq> []" "isTokenExpired e a"
    "truthy (suppliedRefreshToken req)"
  shows "getDelegatedToken e req s =
     (case tokenEndpoint e (str (suppliedRefreshToken req)) of
        None \<Rightarrow> (Inl (Error ''Failed to refresh access token''),
                 s\<lparr>tokenRequests := tokenRequests s @ [str (suppliedRefreshToken req)]\<rparr>)
      | Some data \<Rightarrow>
          (Inr (Some (access_token data)),
           cacheSet e (getUserIdFromToken e a)
             \<lparr>accessToken = access_token data,
              refreshToken = str (js_or (refresh_token data) (suppliedRefreshToken req)),
              expiresAt = now e + (expires_in data - 60) * 1000\<rparr>
             (s\<lparr>tokenRequests := tokenRequests s @ [str (suppliedRefreshToken req)]\<rparr>)))"
  using assms
  by (simp add: getDelegatedToken_def refreshAccessToken_def refreshedRecord_def Let_def
      truthy_Some_str split: option.splits)

text \<open>
  The call on the path of a stale cached record with a usable refresh token
  (lines 385-421).
\<close>

lemma getDelegatedToken_stale:
  assumes "suppliedAccessToken req = Some a" "a \<noteq> []"
    and "\<not> (isTokenExpired e a \<and> truthy (suppliedRefreshToken req))"
    and "fmlookup (userTokenCache s) (getUserIdFromToken e a) = Some c"
    and "validDate (expiresAt c)" and "expiresAt c \<le> now e"
    and "truthy (js_or (suppliedRefreshToken req) (Some (refreshToken c)))"
  shows "getDelegatedToken e req s =
     (let tokenToUse = str (js_or (suppliedRefreshToken req) (Some (refreshToken c)));
          s1 = s\<lparr>tokenRequests := tokenRequests s @ [tokenToUse]\<rparr>
      in case tokenEndpoint e tokenToUse of
           None \<Rightarrow> (Inl (Error ''Failed to refresh access token''),
                    cacheDelete e (getUserIdFromToken e a) s1)
         | Some data \<Rightarrow>
             (Inr (Some (access_token data)),
              cacheSet e (getUserIdFromToken e a)
                \<lparr>accessToken = access_token data,
                 refreshToken = str (js_or (refresh_token data) (Some tokenToUse)),
                 expiresAt = now e + (expires_in data - 60) * 1000\<rparr> s1))"
proof -
  from assms(3) have notimm:
    "(isTokenExpired e a \<and> truthy (suppliedRefreshToken req)) = False"
    by simp
  from assms(6) have stale: "\<not> now e < expiresAt c" by simp
  from assms(1,2,4,5,7) stale show ?thesis
    by (simp add: getDelegatedToken_def refreshAccessToken_def refreshedRecord_def Let_def
        notimm split: option.splits)
qed

text \<open>
  What one call can do to the cache: nothing, store a refreshed record, store the supplied
  pair, or evict the user's record.
\<close>

lemma getDelegatedToken_cache_effect:
  assumes "getDelegatedToken e req s = (res, s')"
  shows "userTokenCache s' = userTokenCache s
       \<or> (\<exists>a r data. suppliedAccessToken req = Some a \<and> r \<noteq> [] \<and>
            tokenEndpoint e r = Some data \<and>
            userTokenCache s' = fmupd (getUserIdFromToken e a)
              \<lparr>accessToken = access_token data,
               refreshToken = str (js_or (refresh_token data) (Some r)),
               expiresAt = now e + (expires_in data - 60) * 1000\<rparr> (userTokenCache s))
       \<or> (\<exists>a. suppliedAccessToken req = Some a \<and> \<not> isTokenExpired e a \<and>
            truthy (suppliedRefreshToken req) \<and>
            userTokenCache s' = fmupd (getUserIdFromToken e a)
              \<lparr>accessToken = a, refreshToken = str (suppliedRefreshToken req),
               expiresAt = now e + 55 * 60 * 1000\<rparr> (userTokenCache s))
       \<or> (\<exists>a. suppliedAccessToken req = Some a \<and>
            userTokenCache s' = fmdrop (getUserIdFromToken e a) (userTokenCache s))"
proof (cases "suppliedAccessToken req")
  case None
  with assms show ?thesis by (simp add: getDelegatedToken_def)
next
  case (Some a)
  note supplied = this
  show ?thesis
  proof (cases "a = []")
    case True
    with assms supplied show ?thesis by (simp add: getDelegatedToken_def)
  next
    case nonempty: False
    let ?rt = "suppliedRefreshToken req"
    let ?u = "getUserIdFromToken e a"
    show ?thesis
    proof (cases "isTokenExpired e a \<and> truthy ?rt")
      case True
      then have "str ?rt \<noteq> []" by (simp add: truthy_str_nonempty)
      with assms supplied nonempty True show ?thesis
        by (cases "tokenEndpoint e (str ?rt)")
           (auto simp: getDelegatedToken_def refreshAccessToken_def refreshedRecord_def Let_def)
    next
      case notimm: False
      have new: ?thesis if "cacheNewToken e ?u a ?rt (isTokenExpired e a) s = (res, s')"
        using that notimm supplied
        by (auto simp: cacheNewToken_def split: if_splits)
      show ?thesis
      proof (cases "fmlookup (userTokenCache s) ?u")
        case None
        with assms supplied nonempty notimm have
          "cacheNewToken e ?u a ?rt (isTokenExpired e a) s = (res, s')"
          by (simp add: getDelegatedToken_def Let_def)
        then show ?thesis by (rule new)
      next
        case (Some c)
        note cached = this
        let ?use = "js_or ?rt (Some (refreshToken c))"
        show ?thesis
        proof (cases "validDate (expiresAt c)")
          case False
          with assms supplied nonempty notimm cached show ?thesis
            by (simp add: getDelegatedToken_def Let_def)
        next
          case valid: True
          show ?thesis
          proof (cases "now e < expiresAt c")
            case True
            with assms supplied nonempty notimm cached valid show ?thesis
              by (simp add: getDelegatedToken_def Let_def)
          next
            case stale: False
            show ?thesis
            proof (cases "truthy ?use")
              case True
              then have "str ?use \<noteq> []" by (simp add: truthy_str_nonempty)
              with assms supplied nonempty notimm cached valid stale True
              show ?thesis
                by (cases "tokenEndpoint e (str ?use)")
                   (auto simp: getDelegatedToken_def refreshAccessToken_def refreshedRecord_def
                      Let_def)
            next
              case False
              with assms supplied nonempty notimm cached valid stale have
                "cacheNewToken e ?u a ?rt (isTokenExpired e a) s = (res, s')"
                by (simp add: getDelegatedToken_def Let_def)
              then show ?thesis by (rule new)
            qed
          qed
        qed
      qed
    qed
  qed
qed

lemma getDelegatedToken_cache_cases
  [consumes 1, case_names untouched refreshed supplied evicted]:
  assumes "getDelegatedToken e req s = (res, s')"
  obtains "userTokenCache s' = userTokenCache s"
  | a r data where "suppliedAccessToken req = Some a" "r \<noteq> []" "tokenEndpoint e r = Some data"
      "userTokenCache s' = fmupd (getUserIdFromToken e a)
         \<lparr>accessToken = access_token data,
          refreshToken = str (js_or (refresh_token data) (Some r)),
          expiresAt = now e + (expires_in data - 60) * 1000\<rparr> (userTokenCache s)"
  | a where "suppliedAccessToken req = Some a" "\<not> isTokenExpired e a"
      "truthy (suppliedRefreshToken req)"
      "userTokenCache s' = fmupd (getUserIdFromToken e a)
         \<lparr>accessToken = a, refreshToken = str (suppliedRefreshToken req),
          expiresAt = now e + 55 * 60 * 1000\<rparr> (userTokenCache s)"
  | a where "suppliedAccessToken req = Some a"
      "userTokenCache s' = fmdrop (getUserIdFromToken e a) (userTokenCache s)"
  using getDelegatedToken_cache_effect [OF assms] by blast

text \<open>A record that a call wrote carries a refresh token.\<close>

lemma getDelegatedToken_written_refreshToken:
  assumes "getDelegatedToken e req s = (res, s')"
    and "fmlookup (userTokenCache s') u = Some c" and "fmlookup (userTokenCache s) u \<noteq> Some c"
  shows "refreshToken c \<noteq> []"
  using assms(1)
proof (cases rule: getDelegatedToken_cache_cases)
  case untouched
  with assms(2,3) show ?thesis by simp
next
  case (refreshed a r data)
  with assms(2,3) show ?thesis
    by (auto simp: str_js_or_nonempty split: if_splits)
next
  case (supplied a)
  with assms(2,3) show ?thesis
    by (auto simp: truthy_str_nonempty split: if_splits)
next
  case (evicted a)
  with assms(2,3) show ?thesis by (auto split: if_splits)
qed

text \<open>The canonical-ID pattern matches no empty string.\<close>

lemma matchesGuid_nonempty: "matchesGuid x \<Longrightarrow> x \<noteq> []"
  by (auto simp: matchesGuid_def eval_nat_numeral)

text \<open>What a user lookup returns does not depend on the requests sent before it.\<close>

lemma fst_findUserByName_log:
  "fst (findUserByName g x log) = fst (findUserByName g x [])"
  by (simp add: findUserByName_def clientGet_def split: sum.splits option.splits list.splits)

lemma fst_findUserId_log:
  "fst (findUserId g tok x log) = fst (findUserId g tok x [])"
  using fst_findUserByName_log [of g x "log @ [UsersByMail x]"] fst_findUserByName_log [of g x log]
    fst_findUserByName_log [of g x "[UsersByMail x]"]
  by (simp add: findUserId_def clientGet_def split: sum.splits option.splits list.splits)

text \<open>\<^verbatim>\<open>startsWith\<close> and \<^verbatim>\<open>includes\<close> are the prefix and the contiguous-sublist relations.\<close>

lemma startsWith_prefix: "startsWith s p \<longleftrightarrow> prefix p s"
  unfolding startsWith_def prefix_def
  by (metis append_eq_conv_conj append_take_drop_id)

lemma includes_str_sublist: "includes_str s t \<longleftrightarrow> sublist t s"
  by (induction s) (simp_all add: sublist_Cons_right startsWith_prefix)

text \<open>
  The head of a stable sort is the first element of the list whose key is least: the sort
  followed by the choice of the first is the choice of the most recent meeting.
\<close>

lemma hd_insort_key:
  "hd (insort_key f x ys) = (if ys = [] \<or> f x \<le> f (hd ys) then x else hd ys)"
  by (cases ys) auto

lemma sort_key_Nil_iff: "sort_key f xs = [] \<longleftrightarrow> xs = []"
  by (metis length_0_conv length_sort)

lemma find_least_sort_key:
  "xs \<noteq> [] \<Longrightarrow> List.find (\<lambda>x. \<forall>y \<in> set xs. f x \<le> f y) xs = Some (hd (sort_key f xs))"
proof (induction xs)
  case Nil
  then show ?case by simp
next
  case (Cons x xs)
  show ?case
  proof (cases "xs = []")
    case True
    then show ?thesis by simp
  next
    case False
    let ?h = "hd (sort_key f xs)"
    from Cons.IH [OF False]
    have h: "List.find (\<lambda>z. \<forall>y \<in> set xs. f z \<le> f y) xs = Some ?h" .
    then have hin: "?h \<in> set xs" and hmin: "\<forall>y \<in> set xs. f ?h \<le> f y"
      by (auto simp: find_Some_iff)
    from False have ne: "sort_key f xs \<noteq> []"
      by (simp add: sort_key_Nil_iff)
    show ?thesis
    proof (cases "f x \<le> f ?h")
      case True
      with hmin have "\<forall>y \<in> set xs. f x \<le> f y" by force
      with True ne show ?thesis by (simp add: hd_insort_key)
    next
      case less: False
      with hin have nx: "\<not> (\<forall>y \<in> set xs. f x \<le> f y)" by blast
      have "List.find (\<lambda>z. f z \<le> f x \<and> (\<forall>y \<in> set xs. f z \<le> f y)) xs =
            List.find (\<lambda>z. \<forall>y \<in> set xs. f z \<le> f y) xs"
      proof (rule find_cong [OF refl])
        fix z assume "z \<in> set xs"
        show "(f z \<le> f x \<and> (\<forall>y \<in> set xs. f z \<le> f y)) = (\<forall>y \<in> set xs. f z \<le> f y)"
        proof
          assume all: "\<forall>y \<in> set xs. f z \<le> f y"
          with hin have "f z \<le> f ?h" by blast
          with less have "f z \<le> f x" by simp
          with all show "f z \<le> f x \<and> (\<forall>y \<in> set xs. f z \<le> f y)" by simp
        qed simp
      qed
      with h nx less ne show ?thesis by (auto simp: hd_insort_key)
    qed
  qed
qed

lemma mostRecent_sortByStartDesc:
  "mostRecent ms = (case sortByStartDesc ms of [] \<Rightarrow> None | m # _ \<Rightarrow> Some m)"
proof (cases "ms = []")
  case True
  then show ?thesis by (simp add: mostRecent_def sortByStartDesc_def)
next
  case False
  from find_least_sort_key [OF False, of "\<lambda>m. - startTime m"]
  have "mostRecent ms = Some (hd (sortByStartDesc ms))"
    by (simp add: mostRecent_def sortByStartDesc_def)
  moreover from False have "sortByStartDesc ms \<noteq> []"
    by (simp add: sortByStartDesc_def sort_key_Nil_iff)
  ultimately show ?thesis by (cases "sortByStartDesc ms") simp_all
qed

lemma pickMostRecent_mostRecent:
  "pickMostRecent after filtered =
     Option.bind (mostRecent (case after of None \<Rightarrow> filtered
                              | Some d \<Rightarrow> filter (startsAtOrAfter d) filtered)) ent_id"
  by (simp add: pickMostRecent_def mostRecent_sortByStartDesc Let_def split: list.splits)

text \<open>The three filters of the code keep the meetings that meet the criteria.\<close>

lemma filters_meetCriteria:
  "(case afterDate crit of
      None \<Rightarrow> (if truthy organizerId
               then filter (\<lambda>m. organizerUserId m = organizerId)
                      (if truthy (title crit)
                       then filter (titleMatches lower (str (title crit))) ms else ms)
               else (if truthy (title crit)
                     then filter (titleMatches lower (str (title crit))) ms else ms))
    | Some d \<Rightarrow> filter (startsAtOrAfter d)
               (if truthy organizerId
                then filter (\<lambda>m. organizerUserId m = organizerId)
                       (if truthy (title crit)
                        then filter (titleMatches lower (str (title crit))) ms else ms)
                else (if truthy (title crit)
                      then filter (titleMatches lower (str (title crit))) ms else ms)))
   = filter (meetsCriteria lower crit organizerId) ms"
  by (auto simp: meetsCriteria_def titleMatches_def startsAtOrAfter_def containsIgnoringCase_def
      includes_str_sublist truthy_def str_def
      split: option.splits jsdate.splits intro!: filter_cong)

text \<open>
  The spec's own example, for any instants with \<open>t1 < t2\<close>: of \<open>Daily Sync\<close> at \<open>t1\<close>,
  \<open>Weekly Sync\<close> at \<open>t2\<close> and \<open>Standup\<close> at \<open>t3\<close>, the title \<open>Sync\<close> finds the meeting
  at \<open>t2\<close>.
\<close>

lemma asciiLower_examples:
  "asciiLower ''Daily Sync'' = ''daily sync''"
  "asciiLower ''Weekly Sync'' = ''weekly sync''"
  "asciiLower ''Standup'' = ''standup''"
  "asciiLower ''Sync'' = ''sync''"
  by code_simp+

lemma findMeetingId_sync_example:
  assumes "t1 < t2" and "tok \<noteq> []"
    and "g MeOnlineMeetings =
           Inr \<lparr>res_value = Some [demo_meeting ''m1'' ''Daily Sync'' o1 t1,
                                  demo_meeting ''m2'' ''Weekly Sync'' o2 t2,
                                  demo_meeting ''m3'' ''Standup'' o3 t3],
                res_id = None\<rparr>"
  shows "fst (findMeetingId asciiLower g tok syncOnly log) = Inr (Some ''m2'')"
  using assms
  by (simp add: findMeetingId_def clientGet_def syncOnly_def truthy_def str_def Let_def
      titleMatches_def demo_meeting_def asciiLower_examples startsWith_def pickMostRecent_def
      sortByStartDesc_def startTime_def)

section \<open>Claims about the token manager\<close>




text \<open>
  Claim C2, as the code has it. A record that a call writes into the cache either comes
  from a refresh, and then its \<open>expiresAt\<close> is the instant of the refresh plus the lifetime
  the token endpoint announced, minus the 60 seconds of margin; or it holds the supplied,
  unexpired access token, and then its \<open>expiresAt\<close> is the instant of the call plus 55
  minutes, whatever expiry the token embeds.
\<close>

theorem written_record_expiresAt:
  assumes "getDelegatedToken e req s = (res, s')"
    and "fmlookup (userTokenCache s') u = Some c"
    and "fmlookup (userTokenCache s) u \<noteq> Some c"
  shows "(\<exists>r data. tokenEndpoint e r = Some data \<and> accessToken c = access_token data \<and>
            expiresAt c = now e + expires_in data * 1000 - 60 * 1000)
       \<or> (suppliedAccessToken req = Some (accessToken c) \<and> \<not> isTokenExpired e (accessToken c) \<and>
            expiresAt c = now e + 55 * 60 * 1000)"
  using assms(1)
proof (cases rule: getDelegatedToken_cache_cases)
  case untouched
  with assms(2,3) show ?thesis by simp
next
  case (refreshed a r data)
  with assms(2,3) have
    "c = \<lparr>accessToken = access_token data,
          refreshToken = str (js_or (refresh_token data) (Some r)),
          expiresAt = now e + (expires_in data - 60) * 1000\<rparr>"
    by (auto split: if_splits)
  then have "accessToken c = access_token data"
    and "expiresAt c = now e + expires_in data * 1000 - 60 * 1000"
    by (simp_all add: algebra_simps)
  with refreshed(3) show ?thesis by blast
next
  case (supplied a)
  with assms(2,3) have
    "c = \<lparr>accessToken = a, refreshToken = str (suppliedRefreshToken req),
          expiresAt = now e + 55 * 60 * 1000\<rparr>"
    by (auto split: if_splits)
  with supplied show ?thesis by simp
next
  case (evicted a)
  with assms(2,3) show ?thesis by (auto split: if_splits)
qed

theorem written_record_expiresAt_witness:
  "fmlookup (userTokenCache
     (snd (getDelegatedToken demo_env (bearer ''h.dead.s'' (Some ''R0'')) demo_empty))) ''alice''
     = Some \<lparr>accessToken = ''h.new.s'', refreshToken = ''R0'', expiresAt = 4540000\<rparr>
   \<and> fmlookup (userTokenCache demo_empty) ''alice''
     \<noteq> Some \<lparr>accessToken = ''h.new.s'', refreshToken = ''R0'', expiresAt = 4540000\<rparr>
   \<and> tokenEndpoint demo_env ''R0''
     = Some \<lparr>access_token = ''h.new.s'', refresh_token = None, expires_in = 3600\<rparr>
   \<and> (4540000 :: int) = now demo_env + 3600 * 1000 - 60 * 1000
   \<and> ((\<exists>r data. tokenEndpoint demo_env r = Some data \<and> ''h.new.s'' = access_token data \<and>
          4540000 = now demo_env + expires_in data * 1000 - 60 * 1000)
       \<or> (suppliedAccessToken (bearer ''h.dead.s'' (Some ''R0'')) = Some ''h.new.s'' \<and>
           \<not> isTokenExpired demo_env ''h.new.s'' \<and>
           4540000 = now demo_env + 55 * 60 * 1000))"
proof -
  let ?c = "\<lparr>accessToken = ''h.new.s'', refreshToken = ''R0'', expiresAt = 4540000\<rparr>"
  let ?call = "getDelegatedToken demo_env (bearer ''h.dead.s'' (Some ''R0'')) demo_empty"
  have after: "fmlookup (userTokenCache (snd ?call)) ''alice'' = Some ?c"
    by (simp add: token_eval)
  have before: "fmlookup (userTokenCache demo_empty) ''alice'' \<noteq> Some ?c"
    by (simp add: demo_empty_def)
  have ep: "tokenEndpoint demo_env ''R0''
              = Some \<lparr>access_token = ''h.new.s'', refresh_token = None, expires_in = 3600\<rparr>"
    and t: "(4540000 :: int) = now demo_env + 3600 * 1000 - 60 * 1000"
    by (simp_all add: demo_env_def demo_tokenEndpoint_def)
  from written_record_expiresAt [OF surjective_pairing after before] after before ep t
  show ?thesis by simp
qed

text \<open>
  Claim C2 as it is worded covers the path that caches a freshly supplied, still valid
  token. The token \<open>h.live.s\<close> expires at millisecond 2000000; cached at millisecond
  1000000 it is given \<open>expiresAt = 4300000\<close>, which is not its expiry less 60 seconds.
\<close>

theorem cached_token_expiresAt_not_true_expiry:
  "decodeToken demo_env ''h.live.s'' = Some \<lparr>oid = Some ''alice'', sub = None, exp = Some 2000\<rparr>
   \<and> fmlookup (userTokenCache
       (snd (getDelegatedToken demo_env (bearer ''h.live.s'' (Some ''R0'')) demo_empty)))
       ''alice''
     = Some \<lparr>accessToken = ''h.live.s'', refreshToken = ''R0'', expiresAt = 4300000\<rparr>
   \<and> (4300000 :: int) \<noteq> 2000 * 1000 - 60 * 1000"
  by (simp add: token_eval)

text \<open>
  Claim C3, as the code has it. Let the request not take the immediate-refresh path, let
  the cache hold for its user a stale record whose \<open>expiresAt\<close> is a valid date, and let the
  token endpoint reject the exchange of the refresh token in use (the supplied one, else
  the cached one). Then the call ends with the error of the failed refresh, the user's
  record is gone from the in-memory map, and \<^verbatim>\<open>saveTokenCache\<close> has rewritten the file
  from that map, the key \<^verbatim>\<open>__proto__\<close> left out, provided that the file is writable and
  every remaining \<open>expiresAt\<close> is a valid date; otherwise the file stays as it was.
\<close>

theorem stale_record_refresh_failure_evicts:
  assumes "suppliedAccessToken req = Some a" and "a \<noteq> []"
    and "\<not> (isTokenExpired e a \<and> truthy (suppliedRefreshToken req))"
    and "fmlookup (userTokenCache s) (getUserIdFromToken e a) = Some c"
    and "validDate (expiresAt c)" and "expiresAt c \<le> now e"
    and "truthy (js_or (suppliedRefreshToken req) (Some (refreshToken c)))"
    and "tokenEndpoint e (str (js_or (suppliedRefreshToken req) (Some (refreshToken c)))) = None"
  shows "fst (getDelegatedToken e req s) = Inl (Error ''Failed to refresh access token'')
       \<and> userTokenCache (snd (getDelegatedToken e req s)) =
           fmdrop (getUserIdFromToken e a) (userTokenCache s)
       \<and> fmlookup (userTokenCache (snd (getDelegatedToken e req s))) (getUserIdFromToken e a)
           = None
       \<and> tokenCacheFile (snd (getDelegatedToken e req s)) =
           (if fmpred (\<lambda>userId data. validDate (expiresAt data))
                 (userTokenCache (snd (getDelegatedToken e req s))) \<and> fileWritable e
            then fmdrop ''__proto__'' (userTokenCache (snd (getDelegatedToken e req s)))
            else tokenCacheFile s)
       \<and> tokenRequests (snd (getDelegatedToken e req s)) =
           tokenRequests s @ [str (js_or (suppliedRefreshToken req) (Some (refreshToken c)))]"
  using getDelegatedToken_stale [OF assms(1-7)] assms(8)
  by (simp add: Let_def)

theorem stale_record_refresh_failure_evicts_witness:
  "suppliedAccessToken (bearer ''h.live.s'' None) = Some ''h.live.s''
   \<and> \<not> isTokenExpired demo_env ''h.live.s''
   \<and> fmlookup (userTokenCache (demo_stale ''revoked'')) ''alice''
     = Some \<lparr>accessToken = ''h.old.s'', refreshToken = ''revoked'', expiresAt = 0\<rparr>
   \<and> tokenEndpoint demo_env ''revoked'' = None
   \<and> fst (getDelegatedToken demo_env (bearer ''h.live.s'' None) (demo_stale ''revoked''))
     = Inl (Error ''Failed to refresh access token'')
   \<and> fmlookup (userTokenCache
       (snd (getDelegatedToken demo_env (bearer ''h.live.s'' None) (demo_stale ''revoked''))))
       ''alice'' = None
   \<and> fmlookup (tokenCacheFile
       (snd (getDelegatedToken demo_env (bearer ''h.live.s'' None) (demo_stale ''revoked''))))
       ''alice'' = None
   \<and> tokenRequests
       (snd (getDelegatedToken demo_env (bearer ''h.live.s'' None) (demo_stale ''revoked'')))
     = [''revoked'']"
proof -
  let ?req = "bearer ''h.live.s'' None"
  let ?c = "\<lparr>accessToken = ''h.old.s'', refreshToken = ''revoked'', expiresAt = 0\<rparr>"
  let ?call = "getDelegatedToken demo_env ?req (demo_stale ''revoked'')"
  have a: "suppliedAccessToken ?req = Some ''h.live.s''"
    by (simp add: token_eval)
  have ne: "''h.live.s'' \<noteq> []" by simp
  have live: "\<not> isTokenExpired demo_env ''h.live.s''"
    by (simp add: token_eval)
  then have n: "\<not> (isTokenExpired demo_env ''h.live.s'' \<and> truthy (suppliedRefreshToken ?req))"
    by simp
  have u: "getUserIdFromToken demo_env ''h.live.s'' = ''alice''"
    by (simp add: token_eval)
  have b: "fmlookup (userTokenCache (demo_stale ''revoked'')) ''alice'' = Some ?c"
    by (simp add: demo_stale_def)
  from b u have b': "fmlookup (userTokenCache (demo_stale ''revoked''))
                       (getUserIdFromToken demo_env ''h.live.s'') = Some ?c"
    by simp
  have v: "validDate (expiresAt ?c)" and st: "expiresAt ?c \<le> now demo_env"
    by (simp_all add: validDate_def demo_env_def)
  have use: "js_or (suppliedRefreshToken ?req) (Some (refreshToken ?c)) = Some ''revoked''"
    by (simp add: token_eval)
  then have t: "truthy (js_or (suppliedRefreshToken ?req) (Some (refreshToken ?c)))"
    by (simp add: truthy_def)
  have ep: "tokenEndpoint demo_env ''revoked'' = None"
    by (simp add: demo_env_def demo_tokenEndpoint_def)
  with use have ep': "tokenEndpoint demo_env
                        (str (js_or (suppliedRefreshToken ?req) (Some (refreshToken ?c)))) = None"
    by (simp add: str_def)
  from stale_record_refresh_failure_evicts [OF a ne n b' v st t ep'] u use
  have f: "fst ?call = Inl (Error ''Failed to refresh access token'')"
    and whole: "userTokenCache (snd ?call) = fmdrop ''alice'' (userTokenCache (demo_stale ''revoked''))"
    and gone: "fmlookup (userTokenCache (snd ?call)) ''alice'' = None"
    and disk: "tokenCacheFile (snd ?call) =
           (if fmpred (\<lambda>userId data. validDate (expiresAt data)) (userTokenCache (snd ?call))
                \<and> fileWritable demo_env
            then fmdrop ''__proto__'' (userTokenCache (snd ?call))
            else tokenCacheFile (demo_stale ''revoked''))"
    and reqs: "tokenRequests (snd ?call) = [''revoked'']"
    by (simp_all add: str_def demo_stale_def)
  have rest: "fmdrop ''alice'' (userTokenCache (demo_stale ''revoked'')) = fmempty"
    by (simp add: demo_stale_def fmdrop_fmupd)
  from disk have disk': "fmlookup (tokenCacheFile (snd ?call)) ''alice'' = None"
    by (simp only: whole rest) (simp add: demo_env_def)
  show ?thesis
    by (rule conjI [OF a conjI [OF live conjI [OF b conjI [OF ep conjI [OF f
          conjI [OF gone conjI [OF disk' reqs]]]]]]])
qed

text \<open>
  Claim C3 as it is worded includes the immediate-refresh path. There the failure is passed
  on and the store is left as it was: with a record for \<open>alice\<close> in the map and in the
  file, an expired access token and the rejected refresh token \<open>revoked\<close>, the call fails
  and the record is still in both.
\<close>

theorem immediate_refresh_failure_keeps_record:
  "fst (getDelegatedToken demo_env (bearer ''h.dead.s'' (Some ''revoked''))
          (demo_stale ''revoked''))
     = Inl (Error ''Failed to refresh access token'')
   \<and> fmlookup (userTokenCache
       (snd (getDelegatedToken demo_env (bearer ''h.dead.s'' (Some ''revoked''))
               (demo_stale ''revoked'')))) ''alice''
     = Some \<lparr>accessToken = ''h.old.s'', refreshToken = ''revoked'', expiresAt = 0\<rparr>
   \<and> fmlookup (tokenCacheFile
       (snd (getDelegatedToken demo_env (bearer ''h.dead.s'' (Some ''revoked''))
               (demo_stale ''revoked'')))) ''alice''
     = Some \<lparr>accessToken = ''h.old.s'', refreshToken = ''revoked'', expiresAt = 0\<rparr>"
  by (simp add: token_eval)



text \<open>
  Claim C5, as the code has it. Let a first call return an access token; let every
  lifetime the token endpoint grants exceed the 60 seconds of margin and give a stored
  \<open>expiresAt\<close> that is a valid date; let the instant 55 minutes from now be a valid date;
  and let a second call with the same request follow at the same instant, the endpoint
  answering the exchange of the supplied refresh token as before. Then the second call
  returns the same access token.
\<close>

theorem obtain_twice_same_credential:
  assumes first: "getDelegatedToken e req s = (Inr t, s1)"
    and margin: "\<forall>r data. tokenEndpoint e r = Some data \<longrightarrow>
                   60 < expires_in data \<and> validDate (now e + (expires_in data - 60) * 1000)"
    and clock: "validDate (now e + 55 * 60 * 1000)"
    and same: "now e2 = now e" "parseJson e2 = parseJson e"
    and again: "tokenEndpoint e2 (str (suppliedRefreshToken req)) =
                tokenEndpoint e (str (suppliedRefreshToken req))"
  shows "fst (getDelegatedToken e2 req s1) = Inr t"
proof (cases "suppliedAccessToken req")
  case None
  with first show ?thesis by (auto simp: getDelegatedToken_def)
next
  case (Some a)
  note supplied = this
  let ?rt = "suppliedRefreshToken req"
  let ?u = "getUserIdFromToken e a"
  note dec = same_decoder [OF same, of a]
  show ?thesis
  proof (cases "a = []")
    case True
    with first supplied show ?thesis by (auto simp: getDelegatedToken_def)
  next
    case nonempty: False
    show ?thesis
    proof (cases "isTokenExpired e a \<and> truthy ?rt")
      case True
      with first supplied nonempty again show ?thesis
        by (cases "tokenEndpoint e (str ?rt)")
           (auto simp: getDelegatedToken_immediate dec)
    next
      case notimm: False
      have new: ?thesis if "cacheNewToken e ?u a ?rt (isTokenExpired e a) s = (Inr t, s1)"
               and "fmlookup (userTokenCache s) ?u = None \<or>
                    (\<exists>c. fmlookup (userTokenCache s) ?u = Some c \<and> validDate (expiresAt c) \<and>
                         \<not> now e < expiresAt c \<and> \<not> truthy ?rt \<and>
                         \<not> truthy (js_or ?rt (Some (refreshToken c))))"
        using that notimm supplied nonempty same clock
        by (auto simp: cacheNewToken_def getDelegatedToken_def dec Let_def split: if_splits)
      show ?thesis
      proof (cases "fmlookup (userTokenCache s) ?u")
        case None
        with first supplied nonempty notimm have
          "cacheNewToken e ?u a ?rt (isTokenExpired e a) s = (Inr t, s1)"
          by (simp add: getDelegatedToken_def Let_def)
        with None show ?thesis by (intro new) simp_all
      next
        case (Some c)
        note cached = this
        let ?use = "js_or ?rt (Some (refreshToken c))"
        have valid: "validDate (expiresAt c)"
        proof (rule ccontr)
          assume "\<not> validDate (expiresAt c)"
          with first supplied nonempty notimm cached show False
            by (simp add: getDelegatedToken_def Let_def)
        qed
        show ?thesis
        proof (cases "now e < expiresAt c")
          case True
          with first supplied nonempty notimm cached valid same show ?thesis
            by (auto simp: getDelegatedToken_def dec Let_def)
        next
          case stale: False
          show ?thesis
          proof (cases "truthy ?use")
            case True
            show ?thesis
            proof (cases "tokenEndpoint e (str ?use)")
              case None
              with first supplied nonempty notimm cached valid stale True show ?thesis
                by (simp add: getDelegatedToken_def refreshAccessToken_def Let_def)
            next
              case (Some data)
              with margin have "60 < expires_in data"
                and v: "validDate (now e + (expires_in data - 60) * 1000)" by blast+
              then have "now e < now e + (expires_in data - 60) * 1000" by simp
              with first supplied nonempty notimm cached valid stale True Some same v
              show ?thesis
                by (auto simp: getDelegatedToken_def refreshAccessToken_def refreshedRecord_def
                    dec Let_def)
            qed
          next
            case False
            then have nort: "\<not> truthy ?rt" by (auto simp: js_or_def split: if_splits)
            from first supplied nonempty notimm cached valid stale False have
              "cacheNewToken e ?u a ?rt (isTokenExpired e a) s = (Inr t, s1)"
              by (simp add: getDelegatedToken_def Let_def)
            with cached valid stale False nort show ?thesis by (intro new) simp_all
          qed
        qed
      qed
    qed
  qed
qed

theorem obtain_twice_same_credential_witness:
  "fst (getDelegatedToken demo_hourEnv (bearer ''h.live.s'' None) (demo_stale ''R0''))
     = Inr (Some ''h.new.s'')
   \<and> tokenRequests
       (snd (getDelegatedToken demo_hourEnv (bearer ''h.live.s'' None) (demo_stale ''R0'')))
     = [''R0'']
   \<and> fst (getDelegatedToken demo_hourEnv (bearer ''h.live.s'' None)
            (snd (getDelegatedToken demo_hourEnv (bearer ''h.live.s'' None) (demo_stale ''R0''))))
     = Inr (Some ''h.new.s'')"
proof -
  let ?req = "bearer ''h.live.s'' None"
  let ?call = "getDelegatedToken demo_hourEnv ?req (demo_stale ''R0'')"
  have f: "fst ?call = Inr (Some ''h.new.s'')"
    and q: "tokenRequests (snd ?call) = [''R0'']"
    by (simp_all add: token_eval)
  from f have first: "?call = (Inr (Some ''h.new.s''), snd ?call)"
    by (metis surjective_pairing)
  have margin: "\<forall>r data. tokenEndpoint demo_hourEnv r = Some data \<longrightarrow>
                  60 < expires_in data \<and>
                  validDate (now demo_hourEnv + (expires_in data - 60) * 1000)"
    by (auto simp: demo_hourEnv_def demo_hourEndpoint_def validDate_def split: if_splits)
  have clock: "validDate (now demo_hourEnv + 55 * 60 * 1000)"
    by (simp add: demo_hourEnv_def validDate_def)
  from obtain_twice_same_credential [OF first margin clock refl refl refl]
  have second: "fst (getDelegatedToken demo_hourEnv ?req (snd ?call)) = Inr (Some ''h.new.s'')" .
  show ?thesis
    by (rule conjI [OF f conjI [OF q second]])
qed

text \<open>
  Claim C5 as it is worded holds for every request. With a stale record for \<open>alice\<close> that
  holds refresh token \<open>R1\<close>, and an endpoint that answers \<open>R1\<close> with a sixty-second
  token and the rotated refresh token \<open>R0\<close>, the first call returns \<open>h.brief.s\<close>; the
  record it stores is stale at once, and the second call, at the same instant and with
  the same endpoint, refreshes again and returns \<open>h.new.s\<close>.
\<close>

theorem obtain_twice_differs:
  "fst (getDelegatedToken demo_env (bearer ''h.live.s'' None) (demo_stale ''R1''))
     = Inr (Some ''h.brief.s'')
   \<and> fst (getDelegatedToken demo_env (bearer ''h.live.s'' None)
            (snd (getDelegatedToken demo_env (bearer ''h.live.s'' None) (demo_stale ''R1''))))
     = Inr (Some ''h.new.s'')"
  by (simp add: token_eval)

text \<open>
  Claim C8. An access token whose payload cannot be decoded is not expired for
  \<^verbatim>\<open>isTokenExpired\<close>, so the guard of the immediate refresh is false whatever refresh token
  comes with it, and the token is filed under the user \<open>default-user\<close>. A call with such
  a token sends a token request only when a stale record of \<open>default-user\<close> is in the
  cache; when the cache has no record of \<open>default-user\<close>, the token is returned as it
  came, and cached for 55 minutes when a refresh token came with it.
\<close>

theorem undecodable_token_treated_as_valid:
  assumes "decodeToken e a = None"
    and "suppliedAccessToken req = Some a" and "a \<noteq> []"
  shows "\<not> isTokenExpired e a
       \<and> getUserIdFromToken e a = ''default-user''
       \<and> (tokenRequests (snd (getDelegatedToken e req s)) = tokenRequests s
            \<or> (\<exists>c. fmlookup (userTokenCache s) ''default-user'' = Some c \<and> expiresAt c \<le> now e))
       \<and> (fmlookup (userTokenCache s) ''default-user'' = None \<longrightarrow>
            getDelegatedToken e req s =
              (Inr (Some a),
               if truthy (suppliedRefreshToken req)
               then cacheSet e ''default-user''
                      \<lparr>accessToken = a, refreshToken = str (suppliedRefreshToken req),
                       expiresAt = now e + 55 * 60 * 1000\<rparr> s
               else s))"
  using assms
  by (auto simp: getDelegatedToken_def cacheNewToken_def isTokenExpired_def
      getUserIdFromToken_def Let_def split: option.splits)

theorem undecodable_token_treated_as_valid_witness:
  "decodeToken demo_env ''garbage'' = None
   \<and> truthy (suppliedRefreshToken (bearer ''garbage'' (Some ''R0'')))
   \<and> fmlookup (userTokenCache demo_empty) ''default-user'' = None
   \<and> \<not> isTokenExpired demo_env ''garbage''
   \<and> fst (getDelegatedToken demo_env (bearer ''garbage'' (Some ''R0'')) demo_empty)
     = Inr (Some ''garbage'')
   \<and> fmlookup (userTokenCache
       (snd (getDelegatedToken demo_env (bearer ''garbage'' (Some ''R0'')) demo_empty)))
       ''default-user''
     = Some \<lparr>accessToken = ''garbage'', refreshToken = ''R0'', expiresAt = 4300000\<rparr>
   \<and> tokenRequests
       (snd (getDelegatedToken demo_env (bearer ''garbage'' (Some ''R0'')) demo_empty)) = []"
proof -
  let ?req = "bearer ''garbage'' (Some ''R0'')"
  have d: "decodeToken demo_env ''garbage'' = None"
    by (simp add: token_eval)
  have a: "suppliedAccessToken ?req = Some ''garbage''"
    by (simp add: token_eval)
  have n: "''garbage'' \<noteq> []" by simp
  have r: "truthy (suppliedRefreshToken ?req)"
    and rs: "str (suppliedRefreshToken ?req) = ''R0''"
    and c: "fmlookup (userTokenCache demo_empty) ''default-user'' = None"
    and t: "now demo_env = 1000000" "tokenRequests demo_empty = []"
    by (simp_all add: token_eval)
  from undecodable_token_treated_as_valid [OF d a n, of demo_empty] d r rs c t
  show ?thesis by simp
qed

text \<open>
  Claim C10. Every mutation of the user token cache keeps the invariant that each stored
  record carries a non-empty refresh token: \<^verbatim>\<open>getDelegatedToken\<close> writes a record only
  from a non-empty refresh token, which \<^verbatim>\<open>refreshAccessToken\<close> hands back when the answer
  brings no new one, and \<^verbatim>\<open>clearUserToken\<close> only removes a record.
\<close>

theorem refresh_token_invariant:
  assumes "refreshTokensPresent s"
  shows "refreshTokensPresent (snd (getDelegatedToken e req s))
       \<and> refreshTokensPresent (clearUserToken e t s)"
proof
  show "refreshTokensPresent (snd (getDelegatedToken e req s))"
    unfolding refreshTokensPresent_def
  proof (intro allI impI)
    fix u c
    assume c: "fmlookup (userTokenCache (snd (getDelegatedToken e req s))) u = Some c"
    show "refreshToken c \<noteq> []"
    proof (cases "fmlookup (userTokenCache s) u = Some c")
      case True
      with assms show ?thesis by (simp add: refreshTokensPresent_def)
    next
      case False
      with getDelegatedToken_written_refreshToken [OF surjective_pairing c] show ?thesis .
    qed
  qed
  show "refreshTokensPresent (clearUserToken e t s)"
    using assms by (auto simp: refreshTokensPresent_def clearUserToken_def split: if_splits)
qed

theorem refresh_token_invariant_witness:
  "refreshTokensPresent (demo_stale ''R0'')
   \<and> fmlookup (userTokenCache
       (snd (getDelegatedToken demo_env (bearer ''h.live.s'' None) (demo_stale ''R0''))))
       ''alice''
     = Some \<lparr>accessToken = ''h.new.s'', refreshToken = ''R0'', expiresAt = 4540000\<rparr>
   \<and> refreshTokensPresent
       (snd (getDelegatedToken demo_env (bearer ''h.live.s'' None) (demo_stale ''R0'')))
   \<and> refreshTokensPresent (clearUserToken demo_env ''h.live.s'' (demo_stale ''R0''))"
proof -
  have inv: "refreshTokensPresent (demo_stale ''R0'')"
    by (auto simp: refreshTokensPresent_def demo_stale_def split: if_splits)
  have w: "fmlookup (userTokenCache
       (snd (getDelegatedToken demo_env (bearer ''h.live.s'' None) (demo_stale ''R0''))))
       ''alice''
     = Some \<lparr>accessToken = ''h.new.s'', refreshToken = ''R0'', expiresAt = 4540000\<rparr>"
    by (simp add: token_eval)
  from refresh_token_invariant [OF inv, of demo_env "bearer ''h.live.s'' None" "''h.live.s''"]
    inv w
  show ?thesis by simp
qed

section \<open>Claims about the identifier resolver\<close>

text \<open>
  Claim C6. For a string of the canonical-ID shape, \<^verbatim>\<open>resolveTeamId\<close> and
  \<^verbatim>\<open>resolveUserId\<close> return the string unchanged and the list of requests sent to the
  directory is as it was: the pattern is tested before any lookup, and no lookup is made.
\<close>

theorem canonical_id_returned_without_lookup:
  assumes "matchesGuid x"
  shows "resolveTeamId toLowerCase g tok (Some x) log = (Inr (Some x), log)
       \<and> resolveUserId g tok (Some x) log = (Inr (Some x), log)"
  using assms matchesGuid_nonempty [OF assms]
  by (simp add: resolveTeamId_def resolveUserId_def truthy_def str_def)

theorem canonical_id_returned_without_lookup_witness:
  "matchesGuid ''11111111-2222-3333-4444-555555555555''
   \<and> resolveTeamId asciiLower demo_graph ''tok''
       (Some ''11111111-2222-3333-4444-555555555555'') []
       = (Inr (Some ''11111111-2222-3333-4444-555555555555''), [])
   \<and> resolveUserId demo_graph ''tok'' (Some ''11111111-2222-3333-4444-555555555555'') []
       = (Inr (Some ''11111111-2222-3333-4444-555555555555''), [])"
proof -
  have m: "matchesGuid ''11111111-2222-3333-4444-555555555555''"
    by (simp add: matchesGuid_def isHexDigit_def eval_nat_numeral)
  show ?thesis
    using m canonical_id_returned_without_lookup [OF m, of asciiLower demo_graph "''tok''" "[]"]
    by simp
qed

text \<open>
  Claim C7. When the caller's meeting list is \<open>ms\<close> and the organizer, if one is given,
  is looked up without error, \<^verbatim>\<open>findMeetingId\<close> returns the id of the most recent of the
  meetings of \<open>ms\<close> that survive the criteria (title as a case-insensitive substring,
  organizer identity, lower bound on the start, each applied only when supplied), and
  \<^verbatim>\<open>null\<close> when none survives; with no criteria at all it returns the most recent meeting
  of \<open>ms\<close>. The survivors and the most recent one are stated by \<open>meetsCriteria\<close> and
  \<open>mostRecent\<close>, which use neither the filters nor the sort of the code.
\<close>

theorem findMeetingId_most_recent_match:
  assumes "tok \<noteq> []"
    and "g MeOnlineMeetings = Inr meetings" and "res_value meetings = Some ms"
    and "(if truthy (organizerEmail crit)
          then fst (findUserId g tok (str (organizerEmail crit)) [])
          else Inr None) = Inr organizerId"
  shows "fst (findMeetingId toLowerCase g tok crit log) =
           Inr (Option.bind
                  (mostRecent (filter (meetsCriteria toLowerCase crit organizerId) ms)) ent_id)
       \<and> (crit = noCriteria \<longrightarrow>
            fst (findMeetingId toLowerCase g tok crit log)
              = Inr (Option.bind (mostRecent ms) ent_id))"
proof -
  let ?filtered = "if truthy (title crit)
                   then filter (titleMatches toLowerCase (str (title crit))) ms else ms"
  let ?byOrg = "if truthy organizerId
                then filter (\<lambda>m. organizerUserId m = organizerId) ?filtered else ?filtered"
  have spec: "(case afterDate crit of
                 None \<Rightarrow> ?byOrg
               | Some d \<Rightarrow> filter (startsAtOrAfter d) ?byOrg)
              = filter (meetsCriteria toLowerCase crit organizerId) ms"
    by (rule filters_meetCriteria)
  have main: "fst (findMeetingId toLowerCase g tok crit log) =
           Inr (Option.bind
                  (mostRecent (filter (meetsCriteria toLowerCase crit organizerId) ms)) ent_id)"
  proof (cases ms)
    case Nil
    with assms(1-3) show ?thesis
      by (simp add: findMeetingId_def clientGet_def mostRecent_def)
  next
    case (Cons m0 rest)
    have "fst (findMeetingId toLowerCase g tok crit log)
            = Inr (pickMostRecent (afterDate crit) ?byOrg)"
    proof (cases "truthy (organizerEmail crit)")
      case True
      with assms(4)
        fst_findUserId_log [of g tok "str (organizerEmail crit)" "log @ [MeOnlineMeetings]"]
      have "fst (findUserId g tok (str (organizerEmail crit)) (log @ [MeOnlineMeetings]))
              = Inr organizerId"
        by simp
      with assms(1-3) Cons True show ?thesis
        by (auto simp: findMeetingId_def clientGet_def Let_def split: prod.splits sum.splits)
    next
      case False
      with assms(4) have "organizerId = None" by simp
      with assms(1-3) Cons False show ?thesis
        by (simp add: findMeetingId_def clientGet_def Let_def truthy_def)
    qed
    then show ?thesis
      by (simp only: pickMostRecent_mostRecent spec)
  qed
  have "filter (meetsCriteria toLowerCase crit organizerId) ms = ms" if "crit = noCriteria"
  proof -
    from that assms(4) have "organizerId = None"
      by (simp add: noCriteria_def truthy_def)
    with that show ?thesis
      by (simp add: meetsCriteria_def noCriteria_def)
  qed
  with main show ?thesis by auto
qed

theorem findMeetingId_most_recent_match_witness:
  "filter (meetsCriteria asciiLower syncOnly None) demo_meetings
     = [demo_meeting ''m1'' ''Daily Sync'' ''u1'' 1000,
        demo_meeting ''m2'' ''Weekly Sync'' ''u2'' 2000]
   \<and> fst (findMeetingId asciiLower demo_graph ''tok'' syncOnly []) = Inr (Some ''m2'')
   \<and> fst (findMeetingId asciiLower demo_graph ''tok'' noCriteria []) = Inr (Some ''m3'')
   \<and> fst (findUserId demo_calendarGraph ''tok'' ''ann@example.com'' []) = Inr (Some ''u2'')
   \<and> filter (meetsCriteria asciiLower allThree (Some ''u2'')) demo_calendar
     = [demo_meeting ''c2'' ''Weekly Sync'' ''u2'' 2000,
        demo_meeting ''c6'' ''BUDGET sync'' ''u2'' 1800]
   \<and> fst (findMeetingId asciiLower demo_calendarGraph ''tok'' allThree []) = Inr (Some ''c2'')"
proof -
  let ?resp = "\<lparr>res_value = Some demo_meetings, res_id = None\<rparr>"
  let ?cal = "\<lparr>res_value = Some demo_calendar, res_id = None\<rparr>"
  have tok: "''tok'' \<noteq> []" by simp
  have g: "demo_graph MeOnlineMeetings = Inr ?resp"
    by (simp add: demo_graph_def)
  have g': "demo_calendarGraph MeOnlineMeetings = Inr ?cal"
    by (simp add: demo_calendarGraph_def)
  have v: "res_value ?resp = Some demo_meetings" and v': "res_value ?cal = Some demo_calendar"
    by simp_all
  have o1: "(if truthy (organizerEmail syncOnly)
             then fst (findUserId demo_graph ''tok'' (str (organizerEmail syncOnly)) [])
             else Inr None) = Inr None"
    and o2: "(if truthy (organizerEmail noCriteria)
             then fst (findUserId demo_graph ''tok'' (str (organizerEmail noCriteria)) [])
             else Inr None) = Inr None"
    by (simp_all add: syncOnly_def noCriteria_def truthy_def)
  have ann: "fst (findUserId demo_calendarGraph ''tok'' ''ann@example.com'' [])
               = Inr (Some ''u2'')"
    by code_simp
  then have o3: "(if truthy (organizerEmail allThree)
             then fst (findUserId demo_calendarGraph ''tok'' (str (organizerEmail allThree)) [])
             else Inr None) = Inr (Some ''u2'')"
    by (simp add: allThree_def truthy_def str_def)
  have survivors: "filter (meetsCriteria asciiLower syncOnly None) demo_meetings
     = [demo_meeting ''m1'' ''Daily Sync'' ''u1'' 1000,
        demo_meeting ''m2'' ''Weekly Sync'' ''u2'' 2000]"
    and survivors': "filter (meetsCriteria asciiLower allThree (Some ''u2'')) demo_calendar
     = [demo_meeting ''c2'' ''Weekly Sync'' ''u2'' 2000,
        demo_meeting ''c6'' ''BUDGET sync'' ''u2'' 1800]"
    by code_simp+
  have r1: "Option.bind
              (mostRecent (filter (meetsCriteria asciiLower syncOnly None) demo_meetings)) ent_id
              = Some ''m2''"
    and r2: "Option.bind (mostRecent demo_meetings) ent_id = Some ''m3''"
    and r3: "Option.bind
              (mostRecent (filter (meetsCriteria asciiLower allThree (Some ''u2'')) demo_calendar))
              ent_id
              = Some ''c2''"
    by code_simp+
  from findMeetingId_most_recent_match [OF tok g v o1, of asciiLower "[]"] r1
  have c1: "fst (findMeetingId asciiLower demo_graph ''tok'' syncOnly []) = Inr (Some ''m2'')"
    by simp
  from findMeetingId_most_recent_match [OF tok g v o2, of asciiLower "[]"]
  have "noCriteria = noCriteria \<longrightarrow>
          fst (findMeetingId asciiLower demo_graph ''tok'' noCriteria [])
            = Inr (Option.bind (mostRecent demo_meetings) ent_id)"
    by (rule conjunct2)
  with r2 have c2:
    "fst (findMeetingId asciiLower demo_graph ''tok'' noCriteria []) = Inr (Some ''m3'')"
    by simp
  from findMeetingId_most_recent_match [OF tok g' v' o3, of asciiLower "[]"] r3
  have c3: "fst (findMeetingId asciiLower demo_calendarGraph ''tok'' allThree [])
              = Inr (Some ''c2'')"
    by simp
  show ?thesis
    by (rule conjI [OF survivors conjI [OF c1 conjI [OF c2 conjI [OF ann
          conjI [OF survivors' c3]]]]])
qed

text \<open>
  Claim C9. When an organizer is given and \<^verbatim>\<open>findUserId\<close> returns \<^verbatim>\<open>null\<close> for it,
  \<^verbatim>\<open>findMeetingId\<close> returns what it returns for the same criteria without the organizer:
  the criterion is dropped, and the call neither returns \<^verbatim>\<open>null\<close> nor raises on that
  account.
\<close>

theorem unresolved_organizer_dropped:
  assumes "truthy (organizerEmail crit)"
    and "fst (findUserId g tok (str (organizerEmail crit)) []) = Inr None"
  shows "fst (findMeetingId toLowerCase g tok crit log) =
         fst (findMeetingId toLowerCase g tok (crit\<lparr>organizerEmail := None\<rparr>) log)"
proof -
  from assms(2)
    fst_findUserId_log [of g tok "str (organizerEmail crit)" "log @ [MeOnlineMeetings]"]
  have "fst (findUserId g tok (str (organizerEmail crit)) (log @ [MeOnlineMeetings])) = Inr None"
    by simp
  with assms(1) show ?thesis
    by (auto simp: findMeetingId_def clientGet_def Let_def truthy_def
        split: prod.splits sum.splits option.splits list.splits)
qed

theorem unresolved_organizer_dropped_witness:
  "truthy (organizerEmail (syncOnly\<lparr>organizerEmail := Some ''nobody''\<rparr>))
   \<and> findUserId demo_graph ''tok'' ''nobody'' []
     = (Inr None, [UsersByDisplayName ''nobody'', UserByKey ''nobody''])
   \<and> fst (findMeetingId asciiLower demo_graph ''tok'' syncOnly []) = Inr (Some ''m2'')
   \<and> fst (findMeetingId asciiLower demo_graph ''tok''
            (syncOnly\<lparr>organizerEmail := Some ''nobody''\<rparr>) [])
     = Inr (Some ''m2'')"
proof -
  let ?crit = "syncOnly\<lparr>organizerEmail := Some ''nobody''\<rparr>"
  have t: "truthy (organizerEmail ?crit)"
    by (simp add: truthy_def)
  have u: "findUserId demo_graph ''tok'' ''nobody'' []
             = (Inr None, [UsersByDisplayName ''nobody'', UserByKey ''nobody''])"
    by code_simp
  then have u': "fst (findUserId demo_graph ''tok'' (str (organizerEmail ?crit)) []) = Inr None"
    by (simp add: str_def)
  have same: "?crit\<lparr>organizerEmail := None\<rparr> = syncOnly"
    by (simp add: syncOnly_def)
  have plain: "fst (findMeetingId asciiLower demo_graph ''tok'' syncOnly []) = Inr (Some ''m2'')"
    by code_simp
  from unresolved_organizer_dropped [OF t u', of asciiLower "[]"] t u plain same
  show ?thesis by simp
qed

end
